theory Spec2Isabelle
  imports Complex_Main "HOL-Library.Sublist" "HOL-Library.Log_Nat"
begin

section \<open>Python values used by \<open>output_mapper.py\<close>\<close>

text \<open>
  A Python \<open>str\<close> is modelled as a \<open>string\<close>: a list of characters whose code points
  are below 256.  Python integers are unbounded and are modelled as \<open>int\<close>; the one
  bound is the interpreter's cap on the digits that \<open>int(s)\<close> reads from a string.  Every
  exception the mapper can raise is a value of \<open>error\<close>; a function that may raise
  returns \<open>error + 'a\<close> with \<open>Inl\<close> for the exception.
\<close>

datatype error = ValueError | IndexError | KeyError | AttributeError

subsection \<open>Character classes\<close>

definition is_digit :: "char \<Rightarrow> bool" where
  \<comment> \<open>\<open>[0-9]\<close>, and \<open>\d\<close> on code points below 256\<close>
  "is_digit c = (c \<in> set ''0123456789'')"

definition is_upper :: "char \<Rightarrow> bool" where
  \<comment> \<open>\<open>[A-Z]\<close>\<close>
  "is_upper c = (c \<in> set ''ABCDEFGHIJKLMNOPQRSTUVWXYZ'')"

definition is_mod_char :: "char \<Rightarrow> bool" where
  \<comment> \<open>\<open>[0-9.+-]\<close>\<close>
  "is_mod_char c = (c \<in> set ''0123456789.+-'')"

definition is_marker_text :: "char \<Rightarrow> bool" where
  \<comment> \<open>\<open>[a-z=_]\<close>\<close>
  "is_marker_text c = (c \<in> set ''abcdefghijklmnopqrstuvwxyz=_'')"

definition is_space :: "char \<Rightarrow> bool" where
  \<comment> \<open>the code points below 256 that \<open>int()\<close> and \<open>float()\<close> strip as whitespace\<close>
  "is_space c = (c \<in> set [CHR 0x09, CHR 0x0A, CHR 0x0B, CHR 0x0C, CHR 0x0D, CHR 0x20,
                            CHR 0x85, CHR 0xA0])"

subsection \<open>Decimal integers: \<open>int(s)\<close> and \<open>str(n)\<close>\<close>

definition digit_val :: "char \<Rightarrow> nat" where
  "digit_val c = of_char c - 48"

definition nat_of_digits :: "string \<Rightarrow> nat" where
  "nat_of_digits ds = foldl (\<lambda>a c. 10 * a + digit_val c) 0 ds"

definition digit_char :: "nat \<Rightarrow> char" where
  "digit_char d = ''0123456789'' ! d"

function str_nat :: "nat \<Rightarrow> string" where
  "str_nat n = (if n < 10 then [digit_char n] else str_nat (n div 10) @ [digit_char (n mod 10)])"
  by pat_completeness auto
termination
  by (relation "measure id") auto

declare str_nat.simps [simp del]

definition str_int :: "int \<Rightarrow> string" where
  "str_int i = (if i < 0 then CHR ''-'' # str_nat (nat (- i)) else str_nat (nat i))"

definition strip_ws :: "string \<Rightarrow> string" where
  \<comment> \<open>leading and trailing whitespace removed\<close>
  "strip_ws s = rev (dropWhile is_space (rev (dropWhile is_space s)))"

fun digit_group :: "string \<Rightarrow> bool" where
  \<comment> \<open>one or more digits, single underscores allowed between digits\<close>
  "digit_group [] = False"
| "digit_group [c] = is_digit c"
| "digit_group (c # d # r) =
     (is_digit c \<and> (if d = CHR ''_'' then digit_group r else digit_group (d # r)))"

definition split_sign :: "string \<Rightarrow> bool \<times> string" where
  \<comment> \<open>an optional leading \<open>+\<close> or \<open>-\<close>; the flag says the sign is \<open>-\<close>\<close>
  "split_sign s =
     (case s of
        [] \<Rightarrow> (False, s)
      | c # r \<Rightarrow> if c = CHR ''-'' then (True, r) else if c = CHR ''+'' then (False, r) else (False, s))"

definition int_max_str_digits :: nat where
  \<comment> \<open>the default of \<open>sys.get_int_max_str_digits()\<close>: \<open>int(s)\<close> refuses more digits\<close>
  "int_max_str_digits = 4300"

definition py_int :: "string \<Rightarrow> error + int" where
  \<comment> \<open>\<open>int(s)\<close> in base 10; raises \<open>ValueError\<close> on anything else\<close>
  "py_int s =
     (case split_sign (strip_ws s) of
        (neg, body) \<Rightarrow>
          if digit_group body \<and> length (filter is_digit body) \<le> int_max_str_digits
          then Inr ((if neg then - 1 else 1) * int (nat_of_digits (filter is_digit body)))
          else Inl ValueError)"

section \<open>The scan index: \<open>format_scan_index\<close>\<close>

text \<open>
  \<^verbatim>\<open>
  FILE_IDX_PATTERN = "\[(\d+)\]"

  def _transform_match_file_idx(self, match):
      file_idx = int(match.group(0)[1:-1])
      return f"F{file_idx - 1}"

  def format_scan_index(self, scan_index):
      scan_index = re.sub("[a-z=_]", "", scan_index)
      scan_index = re.sub(self.FILE_IDX_PATTERN, self._transform_match_file_idx, scan_index)
      return scan_index
  \<close>
\<close>

definition match_file_idx :: "string \<Rightarrow> (string \<times> string) option" where
  \<comment> \<open>a match of \<open>\[(\d+)\]\<close> at the start of the string: the matched text (group 0) and
      what follows it.  The digits are a maximal run, since \<open>]\<close> is not a digit.\<close>
  "match_file_idx s =
     (case s of
        [] \<Rightarrow> None
      | c # cs \<Rightarrow>
          if c = CHR ''[''
          then (case dropWhile is_digit cs of
                  [] \<Rightarrow> None
                | x # rest \<Rightarrow>
                    if x = CHR '']'' \<and> takeWhile is_digit cs \<noteq> []
                    then Some (c # takeWhile is_digit cs @ [x], rest)
                    else None)
          else None)"

definition transform_match_file_idx :: "string \<Rightarrow> error + string" where
  \<comment> \<open>the argument is \<open>match.group(0)\<close>; \<open>[1:-1]\<close> drops its first and last character\<close>
  "transform_match_file_idx m =
     (case py_int (butlast (tl m)) of
        Inl e \<Rightarrow> Inl e
      | Inr file_idx \<Rightarrow> Inr (''F'' @ str_int (file_idx - 1)))"

lemma match_file_idx_shorter:
  "match_file_idx s = Some (m, rest) \<Longrightarrow> length rest < length s"
proof -
  assume a: "match_file_idx s = Some (m, rest)"
  then obtain c cs where s: "s = c # cs"
    by (cases s) (auto simp: match_file_idx_def)
  from a s obtain x where d: "dropWhile is_digit cs = x # rest"
    by (auto simp: match_file_idx_def split: if_splits list.splits)
  have "length (dropWhile is_digit cs) \<le> length cs"
    by (rule length_dropWhile_le)
  with d s show ?thesis by simp
qed

function re_sub_file_idx :: "string \<Rightarrow> error + string" where
  \<comment> \<open>\<open>re.sub(FILE_IDX_PATTERN, _transform_match_file_idx, s)\<close>: every match, left to
      right and not overlapping, is replaced by what the callback returns\<close>
  "re_sub_file_idx [] = Inr []"
| "re_sub_file_idx (c # cs) =
     (case match_file_idx (c # cs) of
        Some (m, rest) \<Rightarrow>
          (case transform_match_file_idx m of
             Inl e \<Rightarrow> Inl e
           | Inr r \<Rightarrow> (case re_sub_file_idx rest of Inl e \<Rightarrow> Inl e | Inr t \<Rightarrow> Inr (r @ t)))
      | None \<Rightarrow> (case re_sub_file_idx cs of Inl e \<Rightarrow> Inl e | Inr t \<Rightarrow> Inr (c # t)))"
  by pat_completeness auto
termination
  by (relation "measure length") (auto dest: match_file_idx_shorter)

definition format_scan_index :: "string \<Rightarrow> error + string" where
  "format_scan_index scan_index =
     re_sub_file_idx (filter (\<lambda>c. \<not> is_marker_text c) scan_index)"

section \<open>Python floats: \<open>float(s)\<close>, \<open>+\<close>, \<open>/ 2\<close> and \<open>str(x)\<close>\<close>

text \<open>
  A Python \<open>float\<close> is an IEEE 754 binary64 value.  A finite value is kept as its sign
  bit and its exact magnitude, a rational number; every operation computes the exact
  rational result and rounds it to the nearest binary64 value, ties to even, as the
  hardware does.  In \<open>Finite neg q\<close> the flag \<open>neg\<close> is the sign bit and \<open>q \<ge> 0\<close> the
  magnitude, so that \<open>Finite True 0\<close> is \<open>-0.0\<close>.
\<close>

datatype pyfloat = Finite bool rat | Infinite bool | NaN

definition pow2 :: "int \<Rightarrow> rat" where
  "pow2 e = (if 0 \<le> e then 2 ^ nat e else 1 / 2 ^ nat (- e))"

definition pow10 :: "int \<Rightarrow> rat" where
  "pow10 e = (if 0 \<le> e then 10 ^ nat e else 1 / 10 ^ nat (- e))"

definition floor_log2 :: "rat \<Rightarrow> int" where
  \<comment> \<open>for \<open>q > 0\<close>: the \<open>e\<close> with \<open>2^e \<le> q < 2^(e+1)\<close>\<close>
  "floor_log2 q =
     (if 1 \<le> q then int (floorlog 2 (nat \<lfloor>q\<rfloor>)) - 1
      else - int (floorlog 2 (nat \<lceil>1 / q\<rceil> - 1)))"

definition floor_log10 :: "rat \<Rightarrow> int" where
  \<comment> \<open>for \<open>q > 0\<close>: the \<open>k\<close> with \<open>10^k \<le> q < 10^(k+1)\<close>\<close>
  "floor_log10 q =
     (if 1 \<le> q then int (floorlog 10 (nat \<lfloor>q\<rfloor>)) - 1
      else - int (floorlog 10 (nat \<lceil>1 / q\<rceil> - 1)))"

definition round_half_even :: "rat \<Rightarrow> int" where
  "round_half_even x =
     (if x - of_int \<lfloor>x\<rfloor> < 1 / 2 then \<lfloor>x\<rfloor>
      else if 1 / 2 < x - of_int \<lfloor>x\<rfloor> then \<lfloor>x\<rfloor> + 1
      else if even \<lfloor>x\<rfloor> then \<lfloor>x\<rfloor> else \<lfloor>x\<rfloor> + 1)"

definition check_overflow :: "rat \<Rightarrow> rat option" where
  \<comment> \<open>the largest binary64 value is below \<open>2^1024\<close>\<close>
  "check_overflow r = (if pow2 1024 \<le> r then None else Some r)"

definition round_to_ulp :: "rat \<Rightarrow> rat \<Rightarrow> rat option" where
  \<comment> \<open>the multiple of \<open>ulp\<close> nearest to \<open>q\<close>\<close>
  "round_to_ulp q ulp = check_overflow (of_int (round_half_even (q / ulp)) * ulp)"

definition round_binary64 :: "rat \<Rightarrow> rat option" where
  \<comment> \<open>the binary64 magnitude nearest to \<open>q \<ge> 0\<close>; \<open>None\<close> when it overflows.  The
      spacing of binary64 values around \<open>q\<close> is \<open>2^(e-52)\<close> for \<open>2^e \<le> q < 2^(e+1)\<close>, and
      \<open>2^-1074\<close> below \<open>2^-1022\<close>.\<close>
  "round_binary64 q =
     (if q = 0 then Some 0
      else round_to_ulp q (pow2 (max (floor_log2 q) (- 1022) - 52)))"

definition mk_float :: "bool \<Rightarrow> rat \<Rightarrow> pyfloat" where
  "mk_float neg q = (case round_binary64 q of None \<Rightarrow> Infinite neg | Some r \<Rightarrow> Finite neg r)"

definition signed :: "bool \<Rightarrow> rat \<Rightarrow> rat" where
  "signed neg q = (if neg then - q else q)"

fun float_add :: "pyfloat \<Rightarrow> pyfloat \<Rightarrow> pyfloat" where
  "float_add NaN y = NaN"
| "float_add x NaN = NaN"
| "float_add (Infinite s) (Infinite t) = (if s = t then Infinite s else NaN)"
| "float_add (Infinite s) (Finite t q) = Infinite s"
| "float_add (Finite s p) (Infinite t) = Infinite t"
| "float_add (Finite s p) (Finite t q) =
     (let v = signed s p + signed t q
      in if v = 0 then Finite (s \<and> t) 0 else mk_float (v < 0) \<bar>v\<bar>)"

fun float_div_2 :: "pyfloat \<Rightarrow> pyfloat" where
  \<comment> \<open>\<open>x / 2\<close>: the divisor is not zero, so nothing is raised\<close>
  "float_div_2 NaN = NaN"
| "float_div_2 (Infinite s) = Infinite s"
| "float_div_2 (Finite s q) = mk_float s (q / 2)"

subsection \<open>\<open>float(s)\<close>\<close>

fun underscores_ok :: "char \<Rightarrow> string \<Rightarrow> bool" where
  \<comment> \<open>an underscore stands only between two digits; the first argument is the
      previous character\<close>
  "underscores_ok prev [] = (prev \<noteq> CHR ''_'')"
| "underscores_ok prev (c # cs) =
     (if c = CHR ''_'' then is_digit prev \<and> underscores_ok c cs
      else if prev = CHR ''_'' then is_digit c \<and> underscores_ok c cs
      else underscores_ok c cs)"

definition to_lower :: "char \<Rightarrow> char" where
  "to_lower c = (if is_upper c then char_of (of_char c + (32::nat)) else c)"

definition parse_exponent :: "string \<Rightarrow> int option" where
  \<comment> \<open>what may follow the mantissa: nothing, or \<open>e\<close>/\<open>E\<close>, an optional sign and digits\<close>
  "parse_exponent s =
     (case s of
        [] \<Rightarrow> Some 0
      | c # r \<Rightarrow>
          if c = CHR ''e'' \<or> c = CHR ''E''
          then (case split_sign r of
                  (neg, ds) \<Rightarrow>
                    if ds \<noteq> [] \<and> list_all is_digit ds
                    then Some ((if neg then - 1 else 1) * int (nat_of_digits ds))
                    else None)
          else None)"

definition parse_decimal :: "string \<Rightarrow> rat option" where
  \<comment> \<open>digits, an optional point and more digits (a digit on one side at least), an
      optional exponent: the exact value written\<close>
  "parse_decimal s =
     (let ip = takeWhile is_digit s;
          r1 = dropWhile is_digit s;
          has_point = (r1 \<noteq> [] \<and> hd r1 = CHR ''.'');
          fp = (if has_point then takeWhile is_digit (tl r1) else []);
          r2 = (if has_point then dropWhile is_digit (tl r1) else r1)
      in if ip = [] \<and> fp = [] then None
         else (case parse_exponent r2 of
                 None \<Rightarrow> None
               | Some e \<Rightarrow> Some (of_nat (nat_of_digits (ip @ fp)) * pow10 (e - int (length fp)))))"

definition py_float :: "string \<Rightarrow> error + pyfloat" where
  \<comment> \<open>\<open>float(s)\<close> for a string \<open>s\<close>; raises \<open>ValueError\<close> on anything it cannot read\<close>
  "py_float s =
     (let t = strip_ws s
      in if \<not> underscores_ok (CHR 0x00) t then Inl ValueError
         else (case split_sign (filter (\<lambda>c. c \<noteq> CHR ''_'') t) of
                 (neg, body) \<Rightarrow>
                   if map to_lower body = ''inf'' \<or> map to_lower body = ''infinity''
                   then Inr (Infinite neg)
                   else if map to_lower body = ''nan'' then Inr NaN
                   else (case parse_decimal body of
                           None \<Rightarrow> Inl ValueError
                         | Some q \<Rightarrow> Inr (mk_float neg q))))"

subsection \<open>\<open>str(x)\<close>: the shortest decimal that reads back as \<open>x\<close>\<close>

definition reads_back :: "rat \<Rightarrow> int \<Rightarrow> int \<Rightarrow> bool" where
  \<comment> \<open>the decimal \<open>c * 10^s\<close> rounds to the binary64 value \<open>q\<close>\<close>
  "reads_back q s c = (round_binary64 (of_int c * pow10 s) = Some q)"

definition prefer_lo :: "rat \<Rightarrow> int \<Rightarrow> int \<Rightarrow> bool" where
  \<comment> \<open>\<open>lo * 10^s\<close> is nearer to \<open>q\<close> than \<open>(lo + 1) * 10^s\<close>; a tie goes to the even one\<close>
  "prefer_lo q s lo =
     (q - of_int lo * pow10 s < of_int (lo + 1) * pow10 s - q \<or>
      (q - of_int lo * pow10 s = of_int (lo + 1) * pow10 s - q \<and> even lo))"

definition pick_candidate :: "rat \<Rightarrow> int \<Rightarrow> int \<Rightarrow> (int \<times> int) option" where
  \<comment> \<open>of the two decimals \<open>lo * 10^s \<le> q < (lo + 1) * 10^s\<close>, the nearest that reads back\<close>
  "pick_candidate q s lo =
     (if of_int lo * pow10 s = q then Some (lo, s)
      else if 0 < lo \<and> reads_back q s lo
      then (if reads_back q s (lo + 1) \<and> \<not> prefer_lo q s lo then Some (lo + 1, s)
            else Some (lo, s))
      else if reads_back q s (lo + 1) then Some (lo + 1, s)
      else None)"

definition candidate_at :: "rat \<Rightarrow> int \<Rightarrow> (int \<times> int) option" where
  "candidate_at q s = pick_candidate q s \<lfloor>q / pow10 s\<rfloor>"

definition decimal_candidate :: "nat \<Rightarrow> rat \<Rightarrow> (int \<times> int) option" where
  \<comment> \<open>the \<open>n\<close>-digit decimal \<open>c * 10^s\<close> nearest to \<open>q\<close> among those that round to \<open>q\<close>\<close>
  "decimal_candidate n q = candidate_at q (floor_log10 q - int n + 1)"

definition nearest_decimal :: "rat \<Rightarrow> int \<Rightarrow> int \<times> int" where
  "nearest_decimal q s = (round_half_even (q / pow10 s), s)"

function shortest_decimal :: "nat \<Rightarrow> rat \<Rightarrow> int \<times> int" where
  \<comment> \<open>tries \<open>n\<close>, \<open>n + 1\<close>, ... digits; 17 digits always read back\<close>
  "shortest_decimal n q =
     (if 17 \<le> n then nearest_decimal q (floor_log10 q - 16)
      else (case decimal_candidate n q of
              Some r \<Rightarrow> r
            | None \<Rightarrow> shortest_decimal (n + 1) q))"
  by pat_completeness auto
termination
  by (relation "measure (\<lambda>(n, q). 17 - n)") auto

declare shortest_decimal.simps [simp del]

definition exponent_str :: "int \<Rightarrow> string" where
  \<comment> \<open>a sign and at least two digits\<close>
  "exponent_str e =
     (if e < 0 then ''-'' else ''+'') @
     (if \<bar>e\<bar> < 10 then CHR ''0'' # str_nat (nat \<bar>e\<bar>) else str_nat (nat \<bar>e\<bar>))"

definition format_digits :: "string \<Rightarrow> int \<Rightarrow> string" where
  \<comment> \<open>the digits \<open>ds\<close> with the decimal point after the first \<open>decpt\<close> of them\<close>
  "format_digits ds decpt =
     (if decpt \<le> - 4 \<or> 16 < decpt
      then take 1 ds @ (if tl ds = [] then [] else CHR ''.'' # tl ds) @ ''e'' @ exponent_str (decpt - 1)
      else if decpt \<le> 0 then ''0.'' @ replicate (nat (- decpt)) CHR ''0'' @ ds
      else if nat decpt < length ds then take (nat decpt) ds @ ''.'' @ drop (nat decpt) ds
      else ds @ replicate (nat decpt - length ds) CHR ''0'' @ ''.0'')"

definition strip_zeros :: "string \<Rightarrow> string" where
  \<comment> \<open>trailing zeros removed\<close>
  "strip_zeros ds = rev (dropWhile (\<lambda>d. d = CHR ''0'') (rev ds))"

definition render_decimal :: "int \<Rightarrow> int \<Rightarrow> string" where
  \<comment> \<open>the decimal \<open>c * 10^s\<close> as Python prints it\<close>
  "render_decimal c s =
     format_digits (strip_zeros (str_nat (nat c))) (int (length (str_nat (nat c))) + s)"

definition float_repr :: "pyfloat \<Rightarrow> string" where
  "float_repr x =
     (case x of
        NaN \<Rightarrow> ''nan''
      | Infinite neg \<Rightarrow> (if neg then ''-inf'' else ''inf'')
      | Finite neg q \<Rightarrow>
          (if neg then ''-'' else []) @
          (if q = 0 then ''0.0''
           else (case shortest_decimal 1 q of (c, s) \<Rightarrow> render_decimal c s)))"

section \<open>The sequence and its scores: \<open>format_sequence_and_scores\<close>\<close>

subsection \<open>String and list built-ins\<close>

function str_replace :: "string \<Rightarrow> string \<Rightarrow> string \<Rightarrow> string" where
  \<comment> \<open>\<open>s.replace(old, new)\<close>: every occurrence of \<open>old\<close>, left to right and not
      overlapping; an empty \<open>old\<close> matches before every character and at the end\<close>
  "str_replace old new s =
     (if old = [] then new @ concat (map (\<lambda>c. c # new) s)
      else if prefix old s then new @ str_replace old new (drop (length old) s)
      else (case s of [] \<Rightarrow> [] | c # cs \<Rightarrow> c # str_replace old new cs))"
  by pat_completeness auto
termination
  by (relation "measure (\<lambda>(old, new, s). length s)") (auto simp: prefix_def)

declare str_replace.simps [simp del]

fun split_on :: "char \<Rightarrow> string \<Rightarrow> string list" where
  \<comment> \<open>\<open>s.split(sep)\<close> for a one-character separator\<close>
  "split_on sep [] = [[]]"
| "split_on sep (c # cs) =
     (if c = sep then [] # split_on sep cs
      else (case split_on sep cs of [] \<Rightarrow> [[c]] | p # ps \<Rightarrow> (c # p) # ps))"

fun join_with :: "string \<Rightarrow> string list \<Rightarrow> string" where
  \<comment> \<open>\<open>sep.join(xs)\<close>\<close>
  "join_with sep [] = []"
| "join_with sep [x] = x"
| "join_with sep (x # y # r) = x @ sep @ join_with sep (y # r)"

fun map_result :: "('a \<Rightarrow> error + 'b) \<Rightarrow> 'a list \<Rightarrow> error + 'b list" where
  \<comment> \<open>\<open>list(map(f, xs))\<close>: the first exception stops the loop\<close>
  "map_result f [] = Inr []"
| "map_result f (x # xs) =
     (case f x of
        Inl e \<Rightarrow> Inl e
      | Inr y \<Rightarrow> (case map_result f xs of Inl e \<Rightarrow> Inl e | Inr ys \<Rightarrow> Inr (y # ys)))"

definition py_getitem :: "'a list \<Rightarrow> nat \<Rightarrow> error + 'a" where
  \<comment> \<open>\<open>xs[i]\<close> for a non-negative index\<close>
  "py_getitem xs i = (if i < length xs then Inr (xs ! i) else Inl IndexError)"

subsection \<open>The mapper\<close>

text \<open>
  \<^verbatim>\<open>
  REPLACEMENTS = [("C+57.021", "C")]
  N_TERM_MOD_PATTERN = r"^([0-9.+-]+)([A-Z])"

  def _transform_match_n_term_mod(self, match):
      ptm, aa = match.group(1), match.group(2)
      return aa + ptm

  def _parse_scores(self, scores):
      scores = scores.split(",")
      scores = list(map(float, scores))
      return scores

  def _format_scores(self, scores):
      return ",".join(map(str, scores))

  def format_sequence_and_scores(self, sequence, aa_scores):
      for repl_args in self.REPLACEMENTS:
          sequence = sequence.replace(*repl_args)
      if re.search(self.N_TERM_MOD_PATTERN, sequence):
          sequence = re.sub(self.N_TERM_MOD_PATTERN, self._transform_match_n_term_mod, sequence)
          aa_scores = self._parse_scores(aa_scores)
          aa_scores[1] = (aa_scores[0] + aa_scores[1]) / 2
          aa_scores = aa_scores[1:]
          aa_scores = self._format_scores(aa_scores)
      return sequence, aa_scores
  \<close>
\<close>

definition REPLACEMENTS :: "(string \<times> string) list" where
  "REPLACEMENTS = [(''C+57.021'', ''C'')]"

definition apply_replacements :: "string \<Rightarrow> string" where
  \<comment> \<open>the loop over \<open>REPLACEMENTS\<close>\<close>
  "apply_replacements sequence =
     foldl (\<lambda>s (old, new). str_replace old new s) sequence REPLACEMENTS"

definition n_term_mod_search :: "string \<Rightarrow> (string \<times> char \<times> string) option" where
  \<comment> \<open>\<open>re.search(N_TERM_MOD_PATTERN, s)\<close>: group 1, group 2 and what follows the match.
      \<open>^\<close> fixes the match at the start; group 1 is the maximal run of \<open>[0-9.+-]\<close>, since
      no character of the run is in \<open>[A-Z]\<close>.\<close>
  "n_term_mod_search s =
     (case dropWhile is_mod_char s of
        [] \<Rightarrow> None
      | aa # rest \<Rightarrow>
          if takeWhile is_mod_char s \<noteq> [] \<and> is_upper aa
          then Some (takeWhile is_mod_char s, aa, rest)
          else None)"

definition transform_match_n_term_mod :: "string \<Rightarrow> char \<Rightarrow> string" where
  "transform_match_n_term_mod ptm aa = aa # ptm"

definition re_sub_n_term_mod :: "string \<Rightarrow> string" where
  \<comment> \<open>\<open>re.sub(N_TERM_MOD_PATTERN, _transform_match_n_term_mod, s)\<close>: the pattern can
      match at the start only, so at most one match is replaced\<close>
  "re_sub_n_term_mod s =
     (case n_term_mod_search s of
        None \<Rightarrow> s
      | Some (ptm, aa, rest) \<Rightarrow> transform_match_n_term_mod ptm aa @ rest)"

definition parse_scores :: "string \<Rightarrow> error + pyfloat list" where
  "parse_scores scores = map_result py_float (split_on CHR '','' scores)"

definition format_scores :: "pyfloat list \<Rightarrow> string" where
  "format_scores scores = join_with '','' (map float_repr scores)"

definition merge_first_scores :: "pyfloat list \<Rightarrow> error + pyfloat list" where
  \<comment> \<open>\<open>aa_scores[1] = (aa_scores[0] + aa_scores[1]) / 2\<close> and then \<open>aa_scores[1:]\<close>\<close>
  "merge_first_scores aa_scores =
     (case py_getitem aa_scores 0 of
        Inl e \<Rightarrow> Inl e
      | Inr a \<Rightarrow>
          (case py_getitem aa_scores 1 of
             Inl e \<Rightarrow> Inl e
           | Inr b \<Rightarrow> Inr (tl (aa_scores[1 := float_div_2 (float_add a b)]))))"

definition format_sequence_and_scores :: "string \<Rightarrow> string \<Rightarrow> error + (string \<times> string)" where
  "format_sequence_and_scores sequence aa_scores =
     (let sequence = apply_replacements sequence
      in if n_term_mod_search sequence \<noteq> None
         then (case parse_scores aa_scores of
                 Inl e \<Rightarrow> Inl e
               | Inr scores \<Rightarrow>
                   (case merge_first_scores scores of
                      Inl e \<Rightarrow> Inl e
                    | Inr merged \<Rightarrow> Inr (re_sub_n_term_mod sequence, format_scores merged)))
         else Inr (sequence, aa_scores))"

section \<open>Tokens of a sequence\<close>

text \<open>
  The mapper has no tokenizer of its own; the count of tokens follows the data model of
  the specification: a token is an amino-acid symbol (an upper-case letter) with the
  modification marker that trails it, and a marker that leads the sequence, before the
  first amino acid, is a token of its own.  So a new token starts at the first character
  and at every upper-case letter.
\<close>

fun tokens :: "string \<Rightarrow> string list" where
  "tokens [] = []"
| "tokens (c # cs) =
     (case tokens cs of
        [] \<Rightarrow> [[c]]
      | t # ts \<Rightarrow> if is_upper (hd t) then [c] # t # ts else (c # t) # ts)"

definition scores_in :: "string \<Rightarrow> nat" where
  \<comment> \<open>how many comma-separated scores a score string holds\<close>
  "scores_in aa_scores = length (split_on CHR '','' aa_scores)"

section \<open>The row-batch driver: \<open>format_output\<close>\<close>

text \<open>
  \<^verbatim>\<open>
  def format_output(self, output_data):
      if "aa_scores" in output_data.columns:
          output_data[["sequence", "aa_scores"]] = output_data.apply(
              lambda row: self.format_sequence_and_scores(row["sequence"], row["aa_scores"]),
              axis=1, result_type="expand")
      else:
          output_data["sequence"] = output_data.apply(self.format_sequence)
      output_data["scan_indices"] = output_data["scan_indices"].apply(self.format_scan_index)
      return output_data
  \<close>
  The table is a list of column names and a list of rows, each row a dictionary from
  column names to cells.  The class \<open>OutputMapper\<close> defines \<open>_transform_match_n_term_mod\<close>,
  \<open>_transform_match_file_idx\<close>, \<open>_parse_scores\<close>, \<open>_format_scores\<close>, \<open>format_scan_index\<close>,
  \<open>format_sequence_and_scores\<close> and \<open>format_output\<close>, and has no base class: it has no
  attribute \<open>format_sequence\<close>, so the \<open>else\<close> branch raises \<open>AttributeError\<close> when it
  evaluates \<open>self.format_sequence\<close>, before \<open>apply\<close> is called and before any row is read.
\<close>

record dataframe =
  columns :: "string list"
  rows :: "(string \<rightharpoonup> string) list"

definition row_getitem :: "(string \<rightharpoonup> string) \<Rightarrow> string \<Rightarrow> error + string" where
  \<comment> \<open>\<open>row[name]\<close>\<close>
  "row_getitem row name = (case row name of None \<Rightarrow> Inl KeyError | Some v \<Rightarrow> Inr v)"

definition format_row :: "(string \<rightharpoonup> string) \<Rightarrow> error + (string \<rightharpoonup> string)" where
  \<comment> \<open>the \<open>lambda\<close> of the first branch and the assignment of its pair to the row\<close>
  "format_row row =
     (case row_getitem row ''sequence'' of
        Inl e \<Rightarrow> Inl e
      | Inr sequence \<Rightarrow>
          (case row_getitem row ''aa_scores'' of
             Inl e \<Rightarrow> Inl e
           | Inr aa_scores \<Rightarrow>
               (case format_sequence_and_scores sequence aa_scores of
                  Inl e \<Rightarrow> Inl e
                | Inr (s, a) \<Rightarrow> Inr (row(''sequence'' \<mapsto> s, ''aa_scores'' \<mapsto> a)))))"

definition remap_row :: "(string \<rightharpoonup> string) \<Rightarrow> error + (string \<rightharpoonup> string)" where
  \<comment> \<open>\<open>format_scan_index\<close> on the cell of \<open>scan_indices\<close>\<close>
  "remap_row row =
     (case row_getitem row ''scan_indices'' of
        Inl e \<Rightarrow> Inl e
      | Inr scan_index \<Rightarrow>
          (case format_scan_index scan_index of
             Inl e \<Rightarrow> Inl e
           | Inr r \<Rightarrow> Inr (row(''scan_indices'' \<mapsto> r))))"

definition format_output :: "dataframe \<Rightarrow> error + dataframe" where
  "format_output output_data =
     (case (if ''aa_scores'' \<in> set (columns output_data)
            then (case map_result format_row (rows output_data) of
                    Inl e \<Rightarrow> Inl e
                  | Inr rs \<Rightarrow> Inr (output_data\<lparr>rows := rs\<rparr>))
            else Inl AttributeError) of
        Inl e \<Rightarrow> Inl e
      | Inr formatted \<Rightarrow>
          if ''scan_indices'' \<in> set (columns formatted)
          then (case map_result remap_row (rows formatted) of
                  Inl e \<Rightarrow> Inl e
                | Inr rs \<Rightarrow> Inr (formatted\<lparr>rows := rs\<rparr>))
          else Inl KeyError)"

section \<open>Properties of \<open>format_scan_index\<close>\<close>

lemma digit_not_space: "is_digit c \<Longrightarrow> \<not> is_space c"
  by (auto simp: is_digit_def is_space_def)

lemma digit_not_punct:
  "is_digit c \<Longrightarrow> c \<noteq> CHR ''-'' \<and> c \<noteq> CHR ''+'' \<and> c \<noteq> CHR ''_'' \<and> c \<noteq> CHR '']''"
  by (auto simp: is_digit_def)

lemma strip_ws_digits:
  assumes "ds \<noteq> []" and "list_all is_digit ds"
  shows "strip_ws ds = ds"
proof -
  from assms have h: "\<not> is_space (hd ds)"
    by (cases ds) (auto simp: digit_not_space)
  from assms have l: "\<not> is_space (hd (rev ds))"
    by (simp add: hd_rev list_all_iff digit_not_space)
  from assms h have "dropWhile is_space ds = ds"
    by (cases ds) auto
  moreover from assms l have "dropWhile is_space (rev ds) = rev ds"
    by (cases "rev ds") auto
  ultimately show ?thesis
    by (simp add: strip_ws_def)
qed

lemma digit_group_digits:
  "ds \<noteq> [] \<Longrightarrow> list_all is_digit ds \<Longrightarrow> digit_group ds"
  by (induction ds rule: digit_group.induct) (auto simp: digit_not_punct)

lemma py_int_digits:
  assumes "ds \<noteq> []" and "list_all is_digit ds" and "length ds \<le> 4300"
  shows "py_int ds = Inr (int (nat_of_digits ds))"
proof -
  from assms have "split_sign ds = (False, ds)"
    by (cases ds) (auto simp: split_sign_def digit_not_punct)
  moreover from assms have "filter is_digit ds = ds"
    by (simp add: list_all_iff)
  ultimately show ?thesis
    using assms by (simp add: py_int_def strip_ws_digits digit_group_digits int_max_str_digits_def)
qed

lemma match_file_idx_bracket:
  assumes "ds \<noteq> []" and "list_all is_digit ds"
  shows "match_file_idx (CHR ''['' # ds @ CHR '']'' # q) = Some (CHR ''['' # ds @ '']'', q)"
proof -
  have nd: "\<not> is_digit CHR '']''"
    by (simp add: is_digit_def)
  from assms have "dropWhile is_digit (ds @ CHR '']'' # q) = CHR '']'' # q"
    using nd by (simp add: list_all_iff)
  moreover from assms have "takeWhile is_digit (ds @ CHR '']'' # q) = ds"
    using nd by (simp add: takeWhile_tail list_all_iff)
  ultimately show ?thesis
    using assms by (simp add: match_file_idx_def)
qed

lemma transform_match_file_idx_bracket:
  assumes "ds \<noteq> []" and "list_all is_digit ds" and "length ds \<le> 4300"
  shows "transform_match_file_idx (CHR ''['' # ds @ '']'') =
         Inr (''F'' @ str_int (int (nat_of_digits ds) - 1))"
  using assms by (simp add: transform_match_file_idx_def py_int_digits butlast_append)

lemma re_sub_file_idx_prefix:
  assumes "CHR ''['' \<notin> set p"
  shows "re_sub_file_idx (p @ s) =
         (case re_sub_file_idx s of Inl e \<Rightarrow> Inl e | Inr t \<Rightarrow> Inr (p @ t))"
  using assms
proof (induction p)
  case Nil
  show ?case by (simp split: sum.splits)
next
  case (Cons c p)
  then have "c \<noteq> CHR ''[''" by auto
  then have "match_file_idx (c # p @ s) = None"
    by (simp add: match_file_idx_def)
  with Cons show ?case by (simp split: sum.splits)
qed

lemma re_sub_file_idx_bracket:
  assumes "ds \<noteq> []" and "list_all is_digit ds" and "length ds \<le> 4300"
  shows "re_sub_file_idx (CHR ''['' # ds @ CHR '']'' # q) =
    (case re_sub_file_idx q of
       Inl e \<Rightarrow> Inl e
     | Inr t \<Rightarrow> Inr (''F'' @ str_int (int (nat_of_digits ds) - 1) @ t))"
  using assms
  by (simp add: match_file_idx_bracket transform_match_file_idx_bracket split: sum.splits)

lemmas scan_index_eval =
  format_scan_index_def match_file_idx_def transform_match_file_idx_def py_int_def
  int_max_str_digits_def
  split_sign_def strip_ws_def is_marker_text_def is_digit_def is_space_def nat_of_digits_def
  digit_val_def str_int_def str_nat.simps digit_char_def

text \<open>
  Claim C7.  \<open>format_scan_index\<close> applied to \<open>ms_run[3]:index=7\<close> returns \<open>F2:7\<close>: the
  bracketed 3 becomes 2 behind the prefix \<open>F\<close>, the lower-case marker text, \<open>=\<close> and \<open>_\<close>
  are stripped, and the spectrum ordinal 7 stays after the colon.
\<close>

theorem format_scan_index_example:
  "format_scan_index ''ms_run[3]:index=7'' = Inr ''F2:7''"
  by (simp add: scan_index_eval)

text \<open>
  Claim C3, as stated, fails: a bracketed number zero is not reported as an error but
  mapped to the negative index \<open>F-1\<close>, and an input without a bracketed number is
  returned with its marker text stripped, also without an error.
\<close>

theorem format_scan_index_zero_or_absent:
  "format_scan_index ''ms_run[0]:index=7'' = Inr ''F-1:7'' \<and>
   format_scan_index ''ms_run:index=7'' = Inr '':7''"
  by (simp add: scan_index_eval)

lemma digit_not_marker_text: "is_digit c \<Longrightarrow> \<not> is_marker_text c"
  by (auto simp: is_digit_def is_marker_text_def)

lemma bracket_not_marker_text: "\<not> is_marker_text CHR ''[''" "\<not> is_marker_text CHR '']''"
  by (simp_all add: is_marker_text_def)

text \<open>
  Claim C3, amended.  Where the first bracket of the input holds a file number \<open>n\<close>
  (one or more digits, at most 4300 of them), the bracket is replaced by \<open>F\<close> and
  \<open>n - 1\<close> and no error is raised for it: a file number 1 gives \<open>F0\<close>, and a file number
  0 gives \<open>F-1\<close>.  An input with no bracket is returned with its marker text stripped,
  and no error is raised.
\<close>

theorem format_scan_index_file_number:
  "(CHR ''['' \<notin> set pre \<and> ds \<noteq> [] \<and> list_all is_digit ds \<and> length ds \<le> 4300 \<longrightarrow>
      format_scan_index (pre @ ''['' @ ds @ '']'' @ post) =
        (case format_scan_index post of
           Inl e \<Rightarrow> Inl e
         | Inr t \<Rightarrow> Inr (filter (\<lambda>c. \<not> is_marker_text c) pre @
                          ''F'' @ str_int (int (nat_of_digits ds) - 1) @ t))) \<and>
   (CHR ''['' \<notin> set s \<longrightarrow> format_scan_index s = Inr (filter (\<lambda>c. \<not> is_marker_text c) s))"
proof (intro conjI impI)
  assume a: "CHR ''['' \<notin> set pre \<and> ds \<noteq> [] \<and> list_all is_digit ds \<and> length ds \<le> 4300"
  let ?strip = "filter (\<lambda>c. \<not> is_marker_text c)"
  from a have ds: "?strip ds = ds"
    by (simp add: list_all_iff digit_not_marker_text)
  from a have pre: "CHR ''['' \<notin> set (?strip pre)"
    by simp
  from a have d1: "ds \<noteq> []" and d2: "list_all is_digit ds" and d3: "length ds \<le> 4300"
    by simp_all
  have "re_sub_file_idx (?strip pre @ CHR ''['' # ds @ CHR '']'' # ?strip post) =
        (case re_sub_file_idx (?strip post) of
           Inl e \<Rightarrow> Inl e
         | Inr t \<Rightarrow> Inr (?strip pre @ ''F'' @ str_int (int (nat_of_digits ds) - 1) @ t))"
    using re_sub_file_idx_prefix [OF pre, of "CHR ''['' # ds @ CHR '']'' # ?strip post"]
      re_sub_file_idx_bracket [OF d1 d2 d3, of "?strip post"]
    by (simp del: re_sub_file_idx.simps split: sum.splits)
  then show "format_scan_index (pre @ ''['' @ ds @ '']'' @ post) =
        (case format_scan_index post of
           Inl e \<Rightarrow> Inl e
         | Inr t \<Rightarrow> Inr (?strip pre @ ''F'' @ str_int (int (nat_of_digits ds) - 1) @ t))"
    by (simp add: format_scan_index_def ds bracket_not_marker_text)
next
  assume "CHR ''['' \<notin> set s"
  then have "CHR ''['' \<notin> set (filter (\<lambda>c. \<not> is_marker_text c) s)"
    by simp
  from re_sub_file_idx_prefix [OF this, of "[]"]
  show "format_scan_index s = Inr (filter (\<lambda>c. \<not> is_marker_text c) s)"
    by (simp add: format_scan_index_def)
qed

theorem format_scan_index_file_number_witness:
  "format_scan_index ''ms_run[1]:index=7'' = Inr ''F0:7'' \<and>
   format_scan_index ''ms_run[0]:index=7'' = Inr ''F-1:7'' \<and>
   format_scan_index ''ms_run:index=7'' = Inr '':7''"
  using format_scan_index_file_number [of "''ms_run''" "''1''" "'':index=7''" "''ms_run:index=7''"]
    format_scan_index_file_number [of "''ms_run''" "''0''" "'':index=7''" "''ms_run:index=7''"]
  by (simp add: scan_index_eval)

section \<open>Lemmas about the replacement step\<close>

lemma apply_replacements_eq:
  "apply_replacements s = str_replace ''C+57.021'' ''C'' s"
  by (simp add: apply_replacements_def REPLACEMENTS_def)

lemma apply_replacements_Nil [simp]: "apply_replacements [] = []"
  by (simp add: apply_replacements_eq str_replace.simps)

lemma apply_replacements_match:
  "apply_replacements (''C+57.021'' @ t) = CHR ''C'' # apply_replacements t"
  unfolding apply_replacements_eq
  by (subst str_replace.simps) simp

lemmas apply_replacements_match_Cons = apply_replacements_match [simplified]

lemma apply_replacements_step:
  assumes "\<not> prefix ''C+57.021'' (c # cs)"
  shows "apply_replacements (c # cs) = c # apply_replacements cs"
  using assms unfolding apply_replacements_eq
  by (subst str_replace.simps) (simp only: list.distinct if_False list.case)

lemma replacement_cases:
  obtains (empty) "s = []"
  | (match) t where "s = ''C+57.021'' @ t"
  | (step) c cs where "s = c # cs" and "\<not> prefix ''C+57.021'' s"
proof (cases "prefix ''C+57.021'' s")
  case True
  then obtain t where "s = ''C+57.021'' @ t"
    by (auto simp: prefix_def)
  then show ?thesis by (rule match)
next
  case False
  then show ?thesis
    by (cases s) (auto intro: empty step)
qed

lemma apply_replacements_no_match:
  "\<not> sublist ''C+57.021'' s \<Longrightarrow> apply_replacements s = s"
proof (induction s)
  case Nil
  show ?case by simp
next
  case (Cons c cs)
  from Cons.prems have np: "\<not> prefix ''C+57.021'' (c # cs)" and ns: "\<not> sublist ''C+57.021'' cs"
    by (auto simp: sublist_Cons_right)
  from Cons.IH [OF ns] np show ?case
    by (simp add: apply_replacements_step)
qed

lemma prefix_apply_replacements:
  "prefix p (apply_replacements r) \<Longrightarrow> CHR ''C'' \<notin> set p \<Longrightarrow> prefix p r"
proof (induction p arbitrary: r)
  case Nil
  show ?case by simp
next
  case (Cons x p)
  from Cons.prems have x: "x \<noteq> CHR ''C''" and p: "CHR ''C'' \<notin> set p"
    by auto
  show ?case
  proof (cases r rule: replacement_cases)
    case empty
    with Cons.prems show ?thesis by simp
  next
    case (match t)
    with Cons.prems x show ?thesis
      by (simp add: apply_replacements_match_Cons)
  next
    case (step c cs)
    with Cons.prems have "x = c" and "prefix p (apply_replacements cs)"
      by (simp_all add: apply_replacements_step)
    with Cons.IH [OF _ p] step show ?thesis by simp
  qed
qed

lemma apply_replacements_clean:
  "\<not> sublist ''C+57.021+57.021'' s \<Longrightarrow> \<not> sublist ''C+57.021'' (apply_replacements s)"
proof (induction s rule: length_induct)
  case (1 s)
  show ?case
  proof (cases s rule: replacement_cases)
    case empty
    then show ?thesis by simp
  next
    case (match t)
    have "sublist t s"
      unfolding match by (rule suffix_imp_sublist) (simp add: suffix_def)
    with "1.prems" have nt: "\<not> sublist ''C+57.021+57.021'' t"
      using sublist_order.order_trans by blast
    from match have "length t < length s" by simp
    with "1.IH" nt have ih: "\<not> sublist ''C+57.021'' (apply_replacements t)"
      by blast
    have "\<not> prefix ''+57.021'' (apply_replacements t)"
    proof
      assume "prefix ''+57.021'' (apply_replacements t)"
      then have "prefix ''+57.021'' t"
        by (rule prefix_apply_replacements) simp
      then obtain u where "t = ''+57.021'' @ u"
        by (auto simp: prefix_def)
      with match have "s = [] @ ''C+57.021+57.021'' @ u" by simp
      then have "sublist ''C+57.021+57.021'' s"
        unfolding sublist_def by blast
      with "1.prems" show False by contradiction
    qed
    with ih match show ?thesis
      by (simp add: apply_replacements_match_Cons sublist_Cons_right)
  next
    case (step c cs)
    from "1.prems" step have nt: "\<not> sublist ''C+57.021+57.021'' cs"
      by (auto simp: sublist_Cons_right)
    from step "1.IH" nt have ih: "\<not> sublist ''C+57.021'' (apply_replacements cs)"
      by simp
    have "\<not> prefix ''C+57.021'' (c # apply_replacements cs)"
    proof
      assume a: "prefix ''C+57.021'' (c # apply_replacements cs)"
      then have c: "c = CHR ''C''" and p: "prefix ''+57.021'' (apply_replacements cs)"
        by simp_all
      from p have "prefix ''+57.021'' cs"
        by (rule prefix_apply_replacements) simp
      with c step show False by simp
    qed
    with ih step show ?thesis
      by (simp add: apply_replacements_step sublist_Cons_right)
  qed
qed

section \<open>Lemmas about the N-terminal pattern\<close>

lemma upper_not_mod_char: "is_upper c \<Longrightarrow> \<not> is_mod_char c"
  by (auto simp: is_upper_def is_mod_char_def)

lemma mod_char_not_C: "is_mod_char c \<Longrightarrow> c \<noteq> CHR ''C''"
  by (auto simp: is_mod_char_def)

lemma n_term_mod_search_append:
  assumes "list_all is_mod_char p" and "d = [] \<or> \<not> is_mod_char (hd d)"
  shows "n_term_mod_search (p @ d) =
         (case d of
            [] \<Rightarrow> None
          | aa # rest \<Rightarrow> if p \<noteq> [] \<and> is_upper aa then Some (p, aa, rest) else None)"
proof (cases d)
  case Nil
  from assms have "dropWhile is_mod_char p = []"
    by (simp add: list_all_iff)
  with Nil show ?thesis
    by (simp add: n_term_mod_search_def del: dropWhile_eq_Nil_conv)
next
  case (Cons aa rest)
  with assms have aa: "\<not> is_mod_char aa" by simp
  from assms aa have t: "takeWhile is_mod_char (p @ aa # rest) = p"
    by (simp add: list_all_iff takeWhile_tail)
  from assms aa have "dropWhile is_mod_char (p @ aa # rest) = aa # rest"
    by (simp add: list_all_iff)
  with t Cons show ?thesis
    by (simp add: n_term_mod_search_def)
qed

lemma n_term_mod_search_Some_iff:
  "n_term_mod_search s = Some (ptm, aa, rest) \<longleftrightarrow>
   s = ptm @ aa # rest \<and> ptm \<noteq> [] \<and> list_all is_mod_char ptm \<and> is_upper aa"
proof
  assume a: "n_term_mod_search s = Some (ptm, aa, rest)"
  then have d: "dropWhile is_mod_char s = aa # rest" and t: "takeWhile is_mod_char s = ptm"
    and ne: "ptm \<noteq> []" and u: "is_upper aa"
    by (auto simp: n_term_mod_search_def split: list.splits if_splits)
  have "s = takeWhile is_mod_char s @ dropWhile is_mod_char s"
    by simp
  with d t have s: "s = ptm @ aa # rest" by simp
  have "list_all is_mod_char (takeWhile is_mod_char s)"
    by (simp add: list_all_iff) (meson set_takeWhileD)
  with t s ne u show "s = ptm @ aa # rest \<and> ptm \<noteq> [] \<and> list_all is_mod_char ptm \<and> is_upper aa"
    by simp
next
  assume a: "s = ptm @ aa # rest \<and> ptm \<noteq> [] \<and> list_all is_mod_char ptm \<and> is_upper aa"
  then have "n_term_mod_search (ptm @ aa # rest) = Some (ptm, aa, rest)"
    by (subst n_term_mod_search_append) (simp_all add: upper_not_mod_char)
  with a show "n_term_mod_search s = Some (ptm, aa, rest)" by simp
qed

lemma n_term_mod_search_None_iff:
  "n_term_mod_search s = None \<longleftrightarrow>
   \<not> (\<exists>ptm aa rest. s = ptm @ aa # rest \<and> ptm \<noteq> [] \<and> list_all is_mod_char ptm \<and> is_upper aa)"
proof -
  have "n_term_mod_search s \<noteq> None \<longleftrightarrow> (\<exists>ptm aa rest. n_term_mod_search s = Some (ptm, aa, rest))"
    by auto
  then show ?thesis
    by (simp only: n_term_mod_search_Some_iff) blast
qed

lemma apply_replacements_marker_prefix:
  "list_all is_mod_char p \<Longrightarrow> apply_replacements (p @ t) = p @ apply_replacements t"
proof (induction p)
  case Nil
  show ?case by simp
next
  case (Cons c p)
  then have "c \<noteq> CHR ''C''"
    by (simp add: mod_char_not_C)
  then have "\<not> prefix ''C+57.021'' (c # p @ t)"
    by simp
  with Cons show ?case
    by (simp add: apply_replacements_step)
qed

lemma apply_replacements_Cons:
  "apply_replacements (x # r) = x # tl (apply_replacements (x # r))"
proof (cases "x # r" rule: replacement_cases)
  case empty
  then show ?thesis by simp
next
  case (match t)
  then have "x = CHR ''C''" by simp
  with match show ?thesis
    by (simp add: apply_replacements_match_Cons)
next
  case (step c cs)
  then show ?thesis
    by (simp add: apply_replacements_step)
qed

lemma n_term_mod_search_replacements:
  "n_term_mod_search (apply_replacements s) =
   (case n_term_mod_search s of
      None \<Rightarrow> None
    | Some (ptm, aa, rest) \<Rightarrow> Some (ptm, aa, tl (apply_replacements (aa # rest))))"
proof -
  define p where "p = takeWhile is_mod_char s"
  define d where "d = dropWhile is_mod_char s"
  have s: "s = p @ d"
    by (simp add: p_def d_def)
  have p: "list_all is_mod_char p"
    unfolding p_def by (simp add: list_all_iff) (meson set_takeWhileD)
  have d: "d = [] \<or> \<not> is_mod_char (hd d)"
    unfolding d_def by (metis hd_dropWhile)
  have r: "apply_replacements s = p @ apply_replacements d"
    unfolding s using p by (rule apply_replacements_marker_prefix)
  show ?thesis
  proof (cases d)
    case Nil
    with s p r show ?thesis
      by (simp add: n_term_mod_search_append [of p "[]", simplified])
  next
    case (Cons x t)
    with d have x: "\<not> is_mod_char x" by simp
    have rd: "apply_replacements d = x # tl (apply_replacements (x # t))"
      unfolding Cons by (rule apply_replacements_Cons)
    have 1: "n_term_mod_search (p @ x # t) =
          (if p \<noteq> [] \<and> is_upper x then Some (p, x, t) else None)"
      using n_term_mod_search_append [OF p, of "x # t"] x by simp
    have 2: "n_term_mod_search (p @ x # tl (apply_replacements (x # t))) =
          (if p \<noteq> [] \<and> is_upper x then Some (p, x, tl (apply_replacements (x # t))) else None)"
      using n_term_mod_search_append [OF p, of "x # tl (apply_replacements (x # t))"] x by simp
    from 1 2 show ?thesis
      unfolding r rd unfolding s Cons by simp
  qed
qed

lemma merge_first_scores_simps:
  "merge_first_scores [] = Inl IndexError"
  "merge_first_scores [a] = Inl IndexError"
  "merge_first_scores (a # b # r) = Inr (float_div_2 (float_add a b) # r)"
  by (simp_all add: merge_first_scores_def py_getitem_def)

lemma merge_first_scores_short:
  assumes "length scores < 2"
  shows "merge_first_scores scores = Inl IndexError"
proof (cases scores)
  case Nil
  then show ?thesis by (simp add: merge_first_scores_simps)
next
  case (Cons a r)
  with assms have "r = []" by simp
  with Cons show ?thesis by (simp add: merge_first_scores_simps)
qed

lemma format_sequence_and_scores_no_marker:
  "n_term_mod_search sequence = None \<Longrightarrow>
   format_sequence_and_scores sequence aa_scores = Inr (apply_replacements sequence, aa_scores)"
  by (simp add: format_sequence_and_scores_def Let_def n_term_mod_search_replacements)

lemma format_sequence_and_scores_marker:
  "n_term_mod_search sequence = Some (ptm, aa, rest) \<Longrightarrow>
   format_sequence_and_scores sequence aa_scores =
     (case parse_scores aa_scores of
        Inl e \<Rightarrow> Inl e
      | Inr scores \<Rightarrow>
          (case merge_first_scores scores of
             Inl e \<Rightarrow> Inl e
           | Inr merged \<Rightarrow>
               Inr (aa # ptm @ tl (apply_replacements (aa # rest)), format_scores merged)))"
  by (simp add: format_sequence_and_scores_def Let_def n_term_mod_search_replacements
      re_sub_n_term_mod_def transform_match_n_term_mod_def split: sum.splits)

section \<open>Lemmas about tokens\<close>

lemma tokens_Cons_hd:
  "tokens (c # cs) \<noteq> [] \<and> hd (tokens (c # cs)) \<noteq> [] \<and> hd (hd (tokens (c # cs))) = c"
  by (simp split: list.splits)

lemma length_tokens:
  "length (tokens s) =
   length (filter is_upper s) + (if s \<noteq> [] \<and> \<not> is_upper (hd s) then 1 else 0)"
proof (induction s)
  case Nil
  show ?case by simp
next
  case (Cons c cs)
  show ?case
  proof (cases cs)
    case Nil
    then show ?thesis by simp
  next
    case (Cons d ds)
    obtain t ts where t: "tokens cs = t # ts" and h: "hd t = d"
      using tokens_Cons_hd [of d ds] Cons by (cases "tokens cs") auto
    from Cons.IH t h Cons show ?thesis
      by auto
  qed
qed

lemma filter_upper_replacements:
  "filter is_upper (apply_replacements s) = filter is_upper s"
proof (induction s rule: length_induct)
  case (1 s)
  show ?case
  proof (cases s rule: replacement_cases)
    case empty
    then show ?thesis by simp
  next
    case (match t)
    then have "length t < length s" by simp
    with "1.IH" have "filter is_upper (apply_replacements t) = filter is_upper t"
      by blast
    moreover have "is_upper CHR ''C''" and "\<not> is_upper CHR ''+''" and "\<not> is_upper CHR ''5''"
      and "\<not> is_upper CHR ''7''" and "\<not> is_upper CHR ''.''" and "\<not> is_upper CHR ''0''"
      and "\<not> is_upper CHR ''2''" and "\<not> is_upper CHR ''1''"
      by (simp_all add: is_upper_def)
    ultimately show ?thesis
      unfolding match apply_replacements_match by simp
  next
    case (step c cs)
    with "1.IH" have "filter is_upper (apply_replacements cs) = filter is_upper cs"
      by simp
    with step show ?thesis
      by (simp add: apply_replacements_step)
  qed
qed

lemma hd_replacements:
  assumes "s \<noteq> []"
  shows "apply_replacements s \<noteq> [] \<and> hd (apply_replacements s) = hd s"
proof (cases s)
  case Nil
  with assms show ?thesis by simp
next
  case (Cons x r)
  have "apply_replacements (x # r) = x # tl (apply_replacements (x # r))"
    by (rule apply_replacements_Cons)
  then have "apply_replacements (x # r) \<noteq> [] \<and> hd (apply_replacements (x # r)) = x"
    by (metis list.distinct(1) list.sel(1))
  with Cons show ?thesis by simp
qed

lemma length_tokens_replacements:
  "length (tokens (apply_replacements s)) = length (tokens s)"
proof (cases "s = []")
  case True
  then show ?thesis by simp
next
  case False
  with hd_replacements [OF False] show ?thesis
    by (simp add: length_tokens filter_upper_replacements)
qed

section \<open>Lemmas about score strings\<close>

lemma digit_char_digit: "d < 10 \<Longrightarrow> is_digit (digit_char d)"
proof -
  assume "d < 10"
  then have "d \<in> {0, 1, 2, 3, 4, 5, 6, 7, 8, 9}"
    by auto
  then show ?thesis
    by (auto simp: digit_char_def is_digit_def)
qed

lemma str_nat_digits: "list_all is_digit (str_nat n)"
proof (induction n rule: str_nat.induct)
  case (1 n)
  show ?case
  proof (cases "n < 10")
    case True
    then show ?thesis
      by (subst str_nat.simps) (simp add: digit_char_digit)
  next
    case False
    with 1 show ?thesis
      by (subst str_nat.simps) (simp add: digit_char_digit)
  qed
qed

lemma digit_not_comma: "is_digit c \<Longrightarrow> c \<noteq> CHR '',''"
  by (auto simp: is_digit_def)

lemma str_nat_no_comma: "CHR '','' \<notin> set (str_nat n)"
  using str_nat_digits [of n] digit_not_comma by (auto simp: list_all_iff)

lemma exponent_str_no_comma: "CHR '','' \<notin> set (exponent_str e)"
  by (simp add: exponent_str_def str_nat_no_comma)

lemma format_digits_no_comma:
  assumes "CHR '','' \<notin> set ds"
  shows "CHR '','' \<notin> set (format_digits ds decpt)"
proof -
  have 1: "CHR '','' \<notin> set (take n ds)" for n
    using assms by (meson in_set_takeD)
  have 2: "CHR '','' \<notin> set (drop n ds)" for n
    using assms by (meson in_set_dropD)
  have 3: "CHR '','' \<notin> set (tl ds)"
    using assms by (cases ds) auto
  have a: "CHR '','' \<notin> set (take 1 ds @ (if tl ds = [] then [] else CHR ''.'' # tl ds) @
                               ''e'' @ exponent_str (decpt - 1))"
    using 1 [of 1] 3 exponent_str_no_comma [of "decpt - 1"]
    by (simp del: take_Suc_Cons One_nat_def)
  have b: "CHR '','' \<notin> set (''0.'' @ replicate (nat (- decpt)) CHR ''0'' @ ds)"
    using assms by simp
  have c: "CHR '','' \<notin> set (take (nat decpt) ds @ ''.'' @ drop (nat decpt) ds)"
    using 1 2 by simp
  have d: "CHR '','' \<notin> set (ds @ replicate (nat decpt - length ds) CHR ''0'' @ ''.0'')"
    using assms by simp
  show ?thesis
    unfolding format_digits_def
    by (cases "decpt \<le> - 4 \<or> 16 < decpt"; cases "decpt \<le> 0"; cases "nat decpt < length ds";
        simp only: if_True if_False a b c d not_False_eq_True)
qed

lemma render_decimal_no_comma: "CHR '','' \<notin> set (render_decimal c s)"
proof -
  have "set (strip_zeros (str_nat (nat c))) \<subseteq> set (str_nat (nat c))"
    by (auto simp: strip_zeros_def dest: set_dropWhileD)
  then have "CHR '','' \<notin> set (strip_zeros (str_nat (nat c)))"
    using str_nat_no_comma [of "nat c"] by (meson subsetD)
  then show ?thesis
    unfolding render_decimal_def by (rule format_digits_no_comma)
qed

lemma float_repr_no_comma: "CHR '','' \<notin> set (float_repr x)"
proof (cases x)
  case (Finite neg q)
  obtain c s where cs: "shortest_decimal 1 q = (c, s)"
    by (cases "shortest_decimal 1 q")
  have "CHR '','' \<notin> set (render_decimal c s)"
    by (rule render_decimal_no_comma)
  with Finite cs show ?thesis
    by (simp add: float_repr_def)
next
  case (Infinite neg)
  then show ?thesis by (simp add: float_repr_def)
next
  case NaN
  then show ?thesis by (simp add: float_repr_def)
qed

lemma split_on_no_sep: "sep \<notin> set x \<Longrightarrow> split_on sep x = [x]"
  by (induction x) auto

lemma split_on_append: "sep \<notin> set x \<Longrightarrow> split_on sep (x @ sep # r) = x # split_on sep r"
  by (induction x) auto

lemma split_on_join_with:
  "xs \<noteq> [] \<Longrightarrow> \<forall>x\<in>set xs. sep \<notin> set x \<Longrightarrow> split_on sep (join_with [sep] xs) = xs"
proof (induction "[sep]" xs rule: join_with.induct)
  case 1
  then show ?case by simp
next
  case (2 x)
  then show ?case by (simp add: split_on_no_sep)
next
  case (3 x y r)
  then show ?case by (simp add: split_on_append)
qed

lemma length_map_result: "map_result f xs = Inr ys \<Longrightarrow> length ys = length xs"
  by (induction xs arbitrary: ys) (auto split: sum.splits)

lemma scores_in_format_scores:
  "scores \<noteq> [] \<Longrightarrow> scores_in (format_scores scores) = length scores"
proof -
  assume "scores \<noteq> []"
  then have "split_on CHR '','' (join_with '','' (map float_repr scores)) = map float_repr scores"
    by (intro split_on_join_with) (auto simp: float_repr_no_comma)
  then show ?thesis
    by (simp add: scores_in_def format_scores_def)
qed

lemma parse_scores_length:
  "parse_scores aa_scores = Inr scores \<Longrightarrow> length scores = scores_in aa_scores"
  unfolding parse_scores_def scores_in_def by (rule length_map_result)

section \<open>Evaluation of the float model on numerals\<close>

lemma floor_rat_divide_numeral:
  "\<lfloor>numeral a / numeral b :: rat\<rfloor> = numeral a div numeral b"
  by (metis floor_divide_of_int_eq of_int_numeral)

lemma floor_rat_one_divide_numeral:
  "\<lfloor>1 / numeral b :: rat\<rfloor> = 1 div numeral b"
  by (metis floor_divide_of_int_eq of_int_1 of_int_numeral)

lemma ceiling_rat_divide_numeral:
  "\<lceil>numeral a / numeral b :: rat\<rceil> = - (- numeral a div numeral b)"
  by (metis ceiling_def floor_divide_of_int_eq minus_divide_left of_int_minus of_int_numeral)

lemma ceiling_rat_one_divide_numeral:
  "\<lceil>1 / numeral b :: rat\<rceil> = - (- 1 div numeral b)"
  by (metis ceiling_def floor_divide_of_int_eq minus_divide_left of_int_minus of_int_numeral of_int_1)

lemmas round_eval =
  round_binary64_def round_to_ulp_def check_overflow_def floor_log2_def floor_log10_def
  round_half_even_def pow10_def pow2_def compute_floorlog
  floor_rat_divide_numeral floor_rat_one_divide_numeral
  ceiling_rat_divide_numeral ceiling_rat_one_divide_numeral

lemmas float_eval =
  py_float_def strip_ws_def is_space_def is_digit_def split_sign_def to_lower_def is_upper_def
  parse_decimal_def parse_exponent_def nat_of_digits_def digit_val_def mk_float_def signed_def
  Let_def

lemmas repr_eval =
  float_repr_def render_decimal_def strip_zeros_def shortest_decimal.simps decimal_candidate_def
  candidate_at_def pick_candidate_def reads_back_def prefer_lo_def nearest_decimal_def
  format_digits_def exponent_str_def str_nat.simps digit_char_def

lemmas seq_eval =
  format_sequence_and_scores_def apply_replacements_def REPLACEMENTS_def str_replace.simps
  n_term_mod_search_def re_sub_n_term_mod_def transform_match_n_term_mod_def is_mod_char_def
  is_upper_def parse_scores_def format_scores_def merge_first_scores_def py_getitem_def
  scores_in_def Let_def

text \<open>
  The mean of two scores is a rounded binary64 value, printed with as many digits as it
  takes to read it back: the mean of \<open>0.1\<close> and \<open>0.2\<close> is not \<open>0.15\<close>.
\<close>

lemma binary64_mean_example:
  "format_sequence_and_scores ''+42.011GK'' ''0.1,0.2,0.7'' =
     Inr (''G+42.011K'', ''0.15000000000000002,0.7'')"
  by (simp add: seq_eval float_eval repr_eval round_eval)

lemma py_float_error: "py_float s = Inl e \<Longrightarrow> e = ValueError"
  by (auto simp: py_float_def Let_def split: if_splits prod.splits option.splits)

lemma map_result_py_float_error: "map_result py_float xs = Inl e \<Longrightarrow> e = ValueError"
  by (induction xs) (auto split: sum.splits dest: py_float_error)

lemma parse_scores_error: "parse_scores aa_scores = Inl e \<Longrightarrow> e = ValueError"
  unfolding parse_scores_def by (rule map_result_py_float_error)

lemma filter_upper_mod_chars: "list_all is_mod_char p \<Longrightarrow> filter is_upper p = []"
  by (induction p) (auto dest: upper_not_mod_char)

section \<open>Properties of \<open>format_sequence_and_scores\<close>\<close>

text \<open>
  Claim C1.  For a sequence and a score string that parses to one score per token of the
  sequence, \<open>format_sequence_and_scores\<close> returns a pair, and the returned sequence has as
  many tokens as the returned score string has comma-separated scores.
\<close>

theorem format_sequence_and_scores_aligned:
  assumes "parse_scores aa_scores = Inr scores"
    and "length scores = length (tokens sequence)"
  shows "\<exists>sequence' aa_scores'.
           format_sequence_and_scores sequence aa_scores = Inr (sequence', aa_scores') \<and>
           length (tokens sequence') = scores_in aa_scores'"
proof (cases "n_term_mod_search sequence")
  case None
  have "length (tokens (apply_replacements sequence)) = scores_in aa_scores"
    using assms by (simp add: length_tokens_replacements parse_scores_length)
  with None show ?thesis
    by (simp add: format_sequence_and_scores_no_marker)
next
  case (Some m)
  obtain ptm aa rest where m: "m = (ptm, aa, rest)"
    by (cases m)
  from Some m have s: "sequence = ptm @ aa # rest" and ne: "ptm \<noteq> []"
    and p: "list_all is_mod_char ptm" and u: "is_upper aa"
    by (simp_all add: n_term_mod_search_Some_iff)
  define rest' where "rest' = tl (apply_replacements (aa # rest))"
  have r: "apply_replacements (aa # rest) = aa # rest'"
    unfolding rest'_def by (rule apply_replacements_Cons)
  from ne p have h: "\<not> is_upper (hd ptm)"
    by (cases ptm) (auto dest: upper_not_mod_char)
  have "filter is_upper (aa # rest') = filter is_upper (aa # rest)"
    using filter_upper_replacements [of "aa # rest"] r by simp
  with u have up: "filter is_upper rest' = filter is_upper rest"
    by simp
  from s ne h u have n: "length (tokens sequence) = Suc (Suc (length (filter is_upper rest)))"
    by (simp add: length_tokens filter_upper_mod_chars [OF p] del: tokens.simps)
  with assms obtain a b r where sc: "scores = a # b # r"
    by (cases scores; cases "tl scores") auto
  with n assms have lr: "length r = length (filter is_upper rest)"
    by simp
  have "length (tokens (aa # ptm @ rest')) = Suc (length (filter is_upper rest))"
    using u by (simp add: length_tokens filter_upper_mod_chars [OF p] up del: tokens.simps)
  also have "\<dots> = scores_in (format_scores (float_div_2 (float_add a b) # r))"
    using lr by (simp add: scores_in_format_scores)
  finally have "length (tokens (aa # ptm @ rest')) =
      scores_in (format_scores (float_div_2 (float_add a b) # r))" .
  with Some m assms sc show ?thesis
    by (simp add: format_sequence_and_scores_marker merge_first_scores_simps rest'_def)
qed

theorem format_sequence_and_scores_aligned_witness:
  "\<exists>sequence' aa_scores'.
     format_sequence_and_scores ''+42.011GKPEPT'' ''1.0,2.0,3.0,4.0,5.0,6.0,7.0'' =
       Inr (sequence', aa_scores') \<and>
     length (tokens sequence') = scores_in aa_scores'"
proof -
  have 1: "parse_scores ''1.0,2.0,3.0,4.0,5.0,6.0,7.0'' =
      Inr [Finite False 1, Finite False 2, Finite False 3, Finite False 4, Finite False 5,
           Finite False 6, Finite False 7]"
    by (simp add: seq_eval float_eval round_eval)
  have 2: "length [Finite False 1, Finite False 2, Finite False 3, Finite False 4, Finite False 5,
           Finite False 6, Finite False 7] = length (tokens ''+42.011GKPEPT'')"
    by (simp add: is_upper_def)
  from format_sequence_and_scores_aligned [OF 1 2] show ?thesis .
qed

text \<open>
  Claim C2.  For the sequence \<open>+42.011GKPEPT\<close> with the scores
  \<open>1.0,2.0,3.0,4.0,5.0,6.0,7.0\<close> the result is the sequence \<open>G+42.011KPEPT\<close> with the
  scores \<open>1.5,3.0,4.0,5.0,6.0,7.0\<close>: the first two scores are replaced by their mean, the
  other five are unchanged, and six scores are left of seven.
\<close>

theorem format_sequence_and_scores_example:
  "format_sequence_and_scores ''+42.011GKPEPT'' ''1.0,2.0,3.0,4.0,5.0,6.0,7.0'' =
     Inr (''G+42.011KPEPT'', ''1.5,3.0,4.0,5.0,6.0,7.0'') \<and>
   scores_in ''1.0,2.0,3.0,4.0,5.0,6.0,7.0'' = 7 \<and>
   scores_in ''1.5,3.0,4.0,5.0,6.0,7.0'' = 6"
  by (simp add: seq_eval float_eval repr_eval round_eval)

text \<open>
  Claim C4, as stated, fails: replacing in \<open>C+57.021+57.021\<close> leaves \<open>C+57.021\<close>, which
  still holds the replaced spelling, and a second pass changes it again.
\<close>

theorem apply_replacements_not_idempotent:
  "apply_replacements (apply_replacements ''C+57.021+57.021'') \<noteq>
     apply_replacements ''C+57.021+57.021'' \<and>
   sublist ''C+57.021'' (apply_replacements ''C+57.021+57.021'')"
  by (simp add: apply_replacements_def REPLACEMENTS_def str_replace.simps sublist_Cons_right)

text \<open>
  Claim C4, amended.  For every sequence in which no occurrence of \<open>C+57.021\<close> is followed
  at once by \<open>+57.021\<close>, the result of the replacement step holds no occurrence of
  \<open>C+57.021\<close>, and applying the step twice gives the same string as applying it once.
\<close>

theorem apply_replacements_idempotent:
  assumes "\<not> sublist ''C+57.021+57.021'' sequence"
  shows "apply_replacements (apply_replacements sequence) = apply_replacements sequence \<and>
         \<not> sublist ''C+57.021'' (apply_replacements sequence)"
proof -
  from assms have "\<not> sublist ''C+57.021'' (apply_replacements sequence)"
    by (rule apply_replacements_clean)
  then show ?thesis
    by (simp add: apply_replacements_no_match)
qed

theorem apply_replacements_idempotent_witness:
  "apply_replacements (apply_replacements ''ABC+57.021DEF'') = apply_replacements ''ABC+57.021DEF'' \<and>
   apply_replacements ''ABC+57.021DEF'' = ''ABCDEF''"
proof -
  have "\<not> sublist ''C+57.021+57.021'' ''ABC+57.021DEF''"
    by (simp add: sublist_Cons_right)
  from apply_replacements_idempotent [OF this] show ?thesis
    by (simp add: apply_replacements_def REPLACEMENTS_def str_replace.simps)
qed

text \<open>
  Claim C5, as stated, fails: with a sequence that has no N-terminal marker the score
  string is never parsed, and a score string that is not a list of floats is returned
  as it came.
\<close>

theorem malformed_scores_pass_through:
  "parse_scores ''abc'' = Inl ValueError \<and>
   format_sequence_and_scores ''PEPT'' ''abc'' = Inr (''PEPT'', ''abc'')"
  by (simp add: seq_eval float_eval)

text \<open>
  Claim C5, amended.  For every row whose sequence begins with an N-terminal marker and
  whose score string fails to parse, \<open>format_sequence_and_scores\<close> raises the
  \<open>ValueError\<close> of the parse.  For every row whose sequence does not begin with such a
  marker the score string is not parsed: it is returned unchanged, whatever it holds.
\<close>

theorem malformed_scores_fail_with_marker:
  "(n_term_mod_search sequence \<noteq> None \<and> parse_scores aa_scores = Inl e \<longrightarrow>
      e = ValueError \<and> format_sequence_and_scores sequence aa_scores = Inl ValueError) \<and>
   (n_term_mod_search sequence = None \<longrightarrow>
      format_sequence_and_scores sequence aa_scores = Inr (apply_replacements sequence, aa_scores))"
proof (intro conjI impI)
  assume a: "n_term_mod_search sequence \<noteq> None \<and> parse_scores aa_scores = Inl e"
  then show e: "e = ValueError"
    using parse_scores_error by blast
  from a obtain ptm aa rest where "n_term_mod_search sequence = Some (ptm, aa, rest)"
    by auto
  with a e show "format_sequence_and_scores sequence aa_scores = Inl ValueError"
    by (simp add: format_sequence_and_scores_marker)
next
  assume "n_term_mod_search sequence = None"
  then show "format_sequence_and_scores sequence aa_scores =
      Inr (apply_replacements sequence, aa_scores)"
    by (rule format_sequence_and_scores_no_marker)
qed

theorem malformed_scores_fail_with_marker_witness:
  "format_sequence_and_scores ''+42.011GK'' ''abc'' = Inl ValueError \<and>
   format_sequence_and_scores ''PEPT'' ''abc'' = Inr (''PEPT'', ''abc'')"
proof -
  have 1: "n_term_mod_search ''+42.011GK'' \<noteq> None \<and> parse_scores ''abc'' = Inl ValueError"
    by (simp add: seq_eval float_eval)
  have 2: "n_term_mod_search ''PEPT'' = None"
    by (simp add: seq_eval)
  have 3: "apply_replacements ''PEPT'' = ''PEPT''"
    by (simp add: seq_eval)
  from malformed_scores_fail_with_marker [of "''+42.011GK''" "''abc''" ValueError] 1
    malformed_scores_fail_with_marker [of "''PEPT''" "''abc''" ValueError] 2 3
  show ?thesis by simp
qed

text \<open>
  Claim C6.  A sequence that holds no occurrence of \<open>C+57.021\<close> and does not begin with
  an N-terminal marker (one or more characters out of the digits, \<open>.\<close>, \<open>+\<close> and \<open>-\<close>,
  followed by an upper-case letter) is returned unchanged, and so is its score string.
\<close>

theorem format_sequence_and_scores_pass_through:
  assumes "\<not> sublist ''C+57.021'' sequence"
    and "\<not> (\<exists>ptm aa rest. sequence = ptm @ aa # rest \<and> ptm \<noteq> [] \<and>
             list_all is_mod_char ptm \<and> is_upper aa)"
  shows "format_sequence_and_scores sequence aa_scores = Inr (sequence, aa_scores)"
proof -
  from assms(2) have "n_term_mod_search sequence = None"
    by (rule iffD2 [OF n_term_mod_search_None_iff])
  then have "format_sequence_and_scores sequence aa_scores =
      Inr (apply_replacements sequence, aa_scores)"
    by (rule format_sequence_and_scores_no_marker)
  with assms(1) show ?thesis
    by (simp add: apply_replacements_no_match)
qed

theorem format_sequence_and_scores_pass_through_witness:
  "format_sequence_and_scores ''PEPTIDE'' ''0.9,0.8,0.7,0.6,0.5,0.4,0.3'' =
     Inr (''PEPTIDE'', ''0.9,0.8,0.7,0.6,0.5,0.4,0.3'')"
proof -
  have 1: "\<not> sublist ''C+57.021'' ''PEPTIDE''"
    by (simp add: sublist_Cons_right)
  have "n_term_mod_search ''PEPTIDE'' = None"
    by (simp add: seq_eval)
  then have 2: "\<not> (\<exists>ptm aa rest. ''PEPTIDE'' = ptm @ aa # rest \<and> ptm \<noteq> [] \<and>
             list_all is_mod_char ptm \<and> is_upper aa)"
    by (rule iffD1 [OF n_term_mod_search_None_iff])
  from format_sequence_and_scores_pass_through [OF 1 2] show ?thesis .
qed

text \<open>
  Claim C9.  When the sequence matches the N-terminal pattern and the score string
  parses to fewer than two scores, \<open>format_sequence_and_scores\<close> raises \<open>IndexError\<close> at
  the merge of the first two scores.  When the score string parses to two scores or
  more, the call returns a pair for such a sequence, and raises \<open>IndexError\<close> for no
  sequence at all.
\<close>

theorem merge_index_error:
  assumes "n_term_mod_search sequence = Some m"
    and "parse_scores aa_scores = Inr scores"
  shows "(length scores < 2 \<longrightarrow>
            format_sequence_and_scores sequence aa_scores = Inl IndexError) \<and>
         (2 \<le> length scores \<longrightarrow>
            (\<exists>r. format_sequence_and_scores sequence aa_scores = Inr r) \<and>
            (\<forall>s. format_sequence_and_scores s aa_scores \<noteq> Inl IndexError))"
proof (intro conjI impI allI)
  obtain ptm aa rest where m: "m = (ptm, aa, rest)"
    by (cases m)
  {
    assume "length scores < 2"
    then have "merge_first_scores scores = Inl IndexError"
      by (rule merge_first_scores_short)
    with assms m show "format_sequence_and_scores sequence aa_scores = Inl IndexError"
      by (simp add: format_sequence_and_scores_marker)
  }
  assume "2 \<le> length scores"
  then obtain a b r where sc: "scores = a # b # r"
    by (cases scores; cases "tl scores") auto
  with assms m show "\<exists>r. format_sequence_and_scores sequence aa_scores = Inr r"
    by (simp add: format_sequence_and_scores_marker merge_first_scores_simps)
  fix s
  show "format_sequence_and_scores s aa_scores \<noteq> Inl IndexError"
  proof (cases "n_term_mod_search s")
    case None
    then show ?thesis
      by (simp add: format_sequence_and_scores_no_marker)
  next
    case (Some m')
    obtain p' a' r' where "m' = (p', a', r')"
      by (cases m')
    with Some assms sc show ?thesis
      by (simp add: format_sequence_and_scores_marker merge_first_scores_simps)
  qed
qed

theorem merge_index_error_witness:
  "format_sequence_and_scores ''+42.011GK'' ''1.0'' = Inl IndexError \<and>
   (\<exists>r. format_sequence_and_scores ''+42.011GK'' ''1.0,2.0,3.0'' = Inr r)"
proof -
  have 1: "n_term_mod_search ''+42.011GK'' = Some (''+42.011'', CHR ''G'', ''K'')"
    by (simp add: seq_eval)
  have 2: "parse_scores ''1.0'' = Inr [Finite False 1]"
    by (simp add: seq_eval float_eval round_eval)
  have 3: "parse_scores ''1.0,2.0,3.0'' = Inr [Finite False 1, Finite False 2, Finite False 3]"
    by (simp add: seq_eval float_eval round_eval)
  from merge_index_error [OF 1 2] merge_index_error [OF 1 3] show ?thesis
    by simp
qed

text \<open>
  Claim C10.  A sequence that begins with two or more markers, one after the other,
  before its first amino acid is never passed through unchanged, whatever the score
  string.  With a score string that parses to two scores or more, the whole run of
  marker characters is one N-terminal marker: it is moved as one suffix behind the first
  amino acid, and the first two scores are replaced by their mean, so that one score
  less is returned.
\<close>

theorem several_markers_relocated:
  assumes "m1 \<noteq> []" and "m2 \<noteq> []"
    and "list_all is_mod_char (m1 @ m2)" and "is_upper aa"
    and "parse_scores aa_scores = Inr (a # b # scores)"
  shows "\<exists>rest'. apply_replacements (aa # rest) = aa # rest' \<and>
           format_sequence_and_scores (m1 @ m2 @ aa # rest) aa_scores =
             Inr (aa # m1 @ m2 @ rest', format_scores (float_div_2 (float_add a b) # scores)) \<and>
           scores_in (format_scores (float_div_2 (float_add a b) # scores)) + 1 =
             scores_in aa_scores \<and>
           (\<forall>sc. format_sequence_and_scores (m1 @ m2 @ aa # rest) sc \<noteq>
                   Inr (m1 @ m2 @ aa # rest, sc))"
proof -
  define rest' where "rest' = tl (apply_replacements (aa # rest))"
  have r: "apply_replacements (aa # rest) = aa # rest'"
    unfolding rest'_def by (rule apply_replacements_Cons)
  from assms have m: "n_term_mod_search ((m1 @ m2) @ aa # rest) = Some (m1 @ m2, aa, rest)"
    by (simp only: n_term_mod_search_Some_iff) simp
  then have "format_sequence_and_scores ((m1 @ m2) @ aa # rest) aa_scores =
      Inr (aa # (m1 @ m2) @ rest', format_scores (float_div_2 (float_add a b) # scores))"
    using assms(5) by (simp add: format_sequence_and_scores_marker merge_first_scores_simps rest'_def)
  moreover have "scores_in (format_scores (float_div_2 (float_add a b) # scores)) + 1 =
      scores_in aa_scores"
    using parse_scores_length [OF assms(5)] by (simp add: scores_in_format_scores)
  moreover have "format_sequence_and_scores (m1 @ m2 @ aa # rest) sc \<noteq>
      Inr (m1 @ m2 @ aa # rest, sc)" for sc
  proof -
    from assms have "aa \<noteq> hd (m1 @ m2)"
      by (cases m1) (auto dest: upper_not_mod_char)
    with assms(1) have "aa # (m1 @ m2) @ rest' \<noteq> (m1 @ m2) @ aa # rest"
      by (cases m1) auto
    with format_sequence_and_scores_marker [OF m, of sc] show ?thesis
      by (auto simp: rest'_def split: sum.splits)
  qed
  ultimately show ?thesis
    using r by simp
qed

theorem several_markers_relocated_witness:
  "format_sequence_and_scores ''+42.011+15.995GK'' ''0.5,0.25,1.0'' =
     Inr (''G+42.011+15.995K'', ''0.375,1.0'')"
proof -
  have 1: "list_all is_mod_char (''+42.011'' @ ''+15.995'')" and 2: "is_upper CHR ''G''"
    by (simp_all add: is_mod_char_def is_upper_def)
  have 3: "parse_scores ''0.5,0.25,1.0'' =
      Inr [Finite False (1 / 2), Finite False (1 / 4), Finite False 1]"
    by (simp add: seq_eval float_eval round_eval)
  have 4: "format_scores [float_div_2 (float_add (Finite False (1 / 2)) (Finite False (1 / 4))),
      Finite False 1] = ''0.375,1.0''"
    by (simp add: seq_eval float_eval repr_eval round_eval)
  have 5: "apply_replacements ''GK'' = ''GK''"
    by (simp add: seq_eval)
  from several_markers_relocated [of "''+42.011''" "''+15.995''" "CHR ''G''" "''0.5,0.25,1.0''"
      "Finite False (1 / 2)" "Finite False (1 / 4)" "[Finite False 1]" "''K''", OF _ _ 1 2 3]
  obtain rest' where r: "apply_replacements ''GK'' = CHR ''G'' # rest'"
    and f: "format_sequence_and_scores (''+42.011'' @ ''+15.995'' @ CHR ''G'' # ''K'') ''0.5,0.25,1.0'' =
      Inr (CHR ''G'' # ''+42.011'' @ ''+15.995'' @ rest',
           format_scores [float_div_2 (float_add (Finite False (1 / 2)) (Finite False (1 / 4))),
             Finite False 1])"
    by auto
  from r 5 have "rest' = ''K''"
    by simp
  with f [unfolded 4] show ?thesis
    by simp
qed

section \<open>Properties of \<open>format_output\<close>\<close>

text \<open>
  Claim C8 does not hold of the code: for a table without the column \<open>aa_scores\<close> the
  driver looks up \<open>self.format_sequence\<close>, which the class does not define, and raises
  \<open>AttributeError\<close>.  No sequence is transformed and no scan index is remapped.
\<close>

theorem format_output_without_scores:
  "format_output \<lparr>columns = [''sequence'', ''scan_indices''],
                  rows = [[''sequence'' \<mapsto> ''+42.011GK'', ''scan_indices'' \<mapsto> ''ms_run[1]:index=0'']]\<rparr> =
     Inl AttributeError"
  by (simp add: format_output_def)

end
